theory Spec2Isabelle
  imports Main
begin

section \<open>JavaScript strings\<close>

text \<open>
  A JavaScript string is modelled as a \<open>string\<close>: one \<open>char\<close> per code unit, for the code
  units 0..255. \<open>length\<close> is \<open>.length\<close>, \<open>take n\<close> is \<open>.slice(0, n)\<close>, \<open>@\<close> is
  concatenation, \<open>[]\<close> is the empty string (the only falsy string).
  \<open>isWhiteSpace\<close> holds of the code units that \<open>String.prototype.trim\<close> strips in that range:
  TAB, LF, VT, FF, CR, SPACE and NBSP. \<open>toLowerCase\<close> lowers A-Z and the upper-case letters
  of Latin-1 (U+00C0..U+00DE without the multiplication sign U+00D7).
\<close>

definition isWhiteSpace :: "char \<Rightarrow> bool" where
  "isWhiteSpace c = (of_char c \<in> {9, 10, 11, 12, 13, 32, 160 :: nat})"

definition trim :: "string \<Rightarrow> string" where
  "trim s = rev (dropWhile isWhiteSpace (rev (dropWhile isWhiteSpace s)))"

definition lowerChar :: "char \<Rightarrow> char" where
  "lowerChar c =
     (let n = (of_char c :: nat)
      in if (65 \<le> n \<and> n \<le> 90) \<or> (192 \<le> n \<and> n \<le> 222 \<and> n \<noteq> 215)
         then char_of (n + 32) else c)"

definition toLowerCase :: "string \<Rightarrow> string" where
  "toLowerCase s = map lowerChar s"

text \<open>\<open>parts.join(' ')\<close>.\<close>

fun join_sp :: "string list \<Rightarrow> string" where
  "join_sp [] = []"
| "join_sp [x] = x"
| "join_sp (x # y # ys) = x @ '' '' @ join_sp (y # ys)"

text \<open>
  \<open>a || b\<close> and \<open>a && b\<close> on strings: the empty string is falsy, every other string truthy.
  A value that may be \<open>undefined\<close> is a \<open>string option\<close>; \<open>or_empty\<close> is \<open>v || ''\<close> on it.
\<close>

definition js_or :: "string \<Rightarrow> string \<Rightarrow> string" where
  "js_or a b = (if a = [] then b else a)"

definition js_and :: "string \<Rightarrow> string \<Rightarrow> string" where
  "js_and a b = (if a = [] then a else b)"

definition or_empty :: "string option \<Rightarrow> string" where
  "or_empty v = (case v of None \<Rightarrow> [] | Some t \<Rightarrow> t)"

text \<open>\<open>xs.slice(-n)\<close> on an array: its last \<open>n\<close> elements, all of them when it is shorter.\<close>

definition slice_last :: "nat \<Rightarrow> 'a list \<Rightarrow> 'a list" where
  "slice_last n xs = drop (length xs - n) xs"

section \<open>Data model\<close>

text \<open>
  One entry of \<open>event.results\<close>: \<open>transcript\<close> is \<open>result[0]?.transcript\<close> (\<open>None\<close> when the
  alternative or its transcript is missing), \<open>isFinal\<close> is \<open>result.isFinal\<close>.
\<close>

datatype segment = Segment (transcript: "string option") (isFinal: bool)

record recog_event =
  resultIndex :: nat
  results :: "segment list"

text \<open>
  A chat message \<open>{type, text, timestamp}\<close>. \<open>mtext\<close> is \<open>None\<close> when \<open>text\<close> is not a string
  (an assistant message takes \<open>data.response\<close> as it comes). The timestamp is left out: no
  handler reads it.
\<close>

record chat_message =
  mtype :: string
  mtext :: "string option"

record history_entry =
  role :: string
  htext :: string

text \<open>The JSON body posted to \<open>/api/feedback\<close>.\<close>

record request =
  req_message :: string
  req_zoneId :: string
  req_acId :: string
  req_sessionId :: string
  req_history :: "history_entry list"

text \<open>
  The state of the \<open>App\<close> component of \<open>src/App.js\<close> (the variant that imports
  \<open>utils/microphonePermission\<close>). Each React state cell and the ref that mirrors it
  (\<open>inputValue\<close>/\<open>inputValueRef\<close>, \<open>messages\<close>/\<open>messagesRef\<close>,
  \<open>selectedAcId\<close>/\<open>selectedAcIdRef\<close>, \<open>isLoading\<close>/\<open>isLoadingRef\<close>) is one field: the
  handlers below write both together, and the effects copy the cell into the ref after
  every render. \<open>hasRecognition\<close> says that \<open>recognitionRef.current\<close> is set;
  \<open>isManualStart\<close> and \<open>seenFinalTexts\<close> are the fields \<open>_isManualStart\<close> and
  \<open>_seenFinalTexts\<close> that the code keeps on the recognition object (\<open>None\<close>: not yet
  created; the Set is a list without repetition, in insertion order).
  Two fields record effects: \<open>autoSent\<close> lists the texts that \<open>onend\<close> hands to
  \<open>sendMessageRef.current\<close>, \<open>posted\<close> the bodies given to \<open>fetch\<close>.
\<close>

record app_state =
  messages :: "chat_message list"
  inputValue :: string
  isListening :: bool
  isLoading :: bool
  speechError :: string
  selectedAcId :: string
  zoneIdFromUrl :: string
  isZoneContext :: bool
  sessionId :: string
  hasRecognition :: bool
  isManualStart :: bool
  seenFinalTexts :: "string list option"
  finalTranscript :: string
  shouldSendOnStop :: bool
  autoSent :: "string list"
  posted :: "request list"

text \<open>
  The state after the first render, in a browser with speech recognition, before the
  effects of the mount have run (\<open>createSessionId\<close> and \<open>readZoneId\<close> below).
\<close>

definition init_state :: app_state where
  "init_state =
     \<lparr> messages = [], inputValue = [], isListening = False, isLoading = False,
       speechError = [], selectedAcId = ''AC-001'', zoneIdFromUrl = [],
       isZoneContext = False, sessionId = [], hasRecognition = True,
       isManualStart = False, seenFinalTexts = None, finalTranscript = [],
       shouldSendOnStop = False, autoSent = [], posted = [] \<rparr>"

section \<open>The transcript reconciler: \<open>onresult\<close>\<close>

text \<open>
  The body of the \<open>for\<close> loop over \<open>event.results\<close>, on the triple of the Set
  \<open>_seenFinalTexts\<close>, the array \<open>finalTextParts\<close> and the string \<open>interimText\<close>.
\<close>

definition scan_step ::
  "segment \<Rightarrow> string list \<times> string list \<times> string \<Rightarrow> string list \<times> string list \<times> string" where
  "scan_step result acc =
     (case acc of (seen, finalTextParts, interimText) \<Rightarrow>
        (let chunk = trim (or_empty (transcript result))
         in if chunk = [] then acc
            else if isFinal result then
              (let chunkKey = toLowerCase chunk
               in if chunkKey \<notin> set seen
                  then (seen @ [chunkKey], finalTextParts @ [chunk], interimText)
                  else acc)
            else (seen, finalTextParts,
                  interimText @ (if interimText \<noteq> [] then '' '' else []) @ chunk)))"

definition scan_results ::
  "segment list \<Rightarrow> string list \<Rightarrow> string list \<times> string list \<times> string" where
  "scan_results rs seen = fold scan_step rs (seen, [], [])"

definition seen_texts :: "app_state \<Rightarrow> string list" where
  "seen_texts s = (case seenFinalTexts s of None \<Rightarrow> [] | Some t \<Rightarrow> t)"

definition onresult :: "recog_event \<Rightarrow> app_state \<Rightarrow> app_state" where
  "onresult event s =
     (case scan_results (results event) (seen_texts s) of
        (seen, finalTextParts, interimText) \<Rightarrow>
          (let final = (if length finalTextParts > 0
                        then trim (join_sp finalTextParts) else finalTranscript s);
               combined = trim (final @ '' '' @ interimText)
           in s\<lparr> seenFinalTexts := Some seen,
                 finalTranscript := final,
                 inputValue := (if length combined > 0 then combined else inputValue s),
                 speechError := [] \<rparr>))"

section \<open>The dictation session: \<open>onstart\<close>, \<open>onend\<close>, \<open>onerror\<close> and the buttons\<close>

text \<open>\<open>if (recognitionRef.current._seenFinalTexts) recognitionRef.current._seenFinalTexts.clear()\<close>.\<close>

definition clear_seen :: "string list option \<Rightarrow> string list option" where
  "clear_seen v = (case v of None \<Rightarrow> None | Some t \<Rightarrow> Some [])"

definition onstart :: "app_state \<Rightarrow> app_state" where
  "onstart s =
     (if isManualStart s
      then s\<lparr> finalTranscript := [], isManualStart := False,
              seenFinalTexts := clear_seen (seenFinalTexts s) \<rparr>
      else s)"

text \<open>
  \<open>textToSend\<close> of \<open>onend\<close>:
  \<open>(final && final.trim()) || (input && input.trim()) || ''\<close>.
\<close>

definition textToSend :: "app_state \<Rightarrow> string" where
  "textToSend s =
     js_or (js_or (js_and (finalTranscript s) (trim (finalTranscript s)))
                  (js_and (inputValue s) (trim (inputValue s))))
           []"

text \<open>
  \<open>onend\<close>. The call \<open>sendMessageRef.current(textToSend)\<close> that it schedules with
  \<open>setTimeout\<close> is recorded in \<open>autoSent\<close>; \<open>sendMessageRef.current\<close> is
  \<open>handleSendMessage\<close> from the first render on.
\<close>

definition onend :: "app_state \<Rightarrow> app_state" where
  "onend s =
     (let s1 = s\<lparr> isListening := False,
                   isManualStart := (if hasRecognition s then False else isManualStart s) \<rparr>
      in if shouldSendOnStop s1 then
           (let text = textToSend s1;
                s2 = s1\<lparr> shouldSendOnStop := False, finalTranscript := [], inputValue := [] \<rparr>
            in if text \<noteq> [] \<and> length text > 0
               then s2\<lparr> autoSent := autoSent s2 @ [text] \<rparr>
               else s2)
         else
           (let currentText = js_or (inputValue s1) []
            in if length (trim currentText) = 0
               then s1\<lparr> finalTranscript := [], inputValue := [] \<rparr>
               else s1))"

text \<open>\<open>getMicrophonePermissionErrorMessage\<close> of \<open>utils/microphonePermission.js\<close>.\<close>

definition getMicrophonePermissionErrorMessage :: "string \<Rightarrow> string" where
  "getMicrophonePermissionErrorMessage errorType =
     (if errorType = ''not-allowed'' \<or> errorType = ''service-not-allowed''
         \<or> errorType = ''NotAllowedError''
      then ''Microphone permission is required. Please enable microphone access in your browser settings and try again. On mobile: Settings > Browser > Microphone > Allow''
      else ''Microphone permission error. Please try again.'')"

text \<open>
  \<open>onerror\<close>, with \<open>error\<close> the field \<open>event?.error\<close>. The three assignments come first, the
  mapping to a message after them, as in the source. In the permission branch the source
  shows \<open>Microphone permission denied. Requesting permission again...\<close> and starts
  \<open>requestMicrophonePermission()\<close>, whose \<open>then\<close> callback replaces that message; the
  callback is folded into the same step, as the awaited continuations of
  \<open>handleVoiceInput\<close> are. \<open>requestMicrophonePermission\<close> of \<open>utils/microphonePermission.js\<close>
  resolves to a boolean, on which \<open>result.granted\<close> and \<open>result.permanentlyBlocked\<close> are
  both \<open>undefined\<close>: the callback takes its last branch,
  \<open>setSpeechError(getMicrophonePermissionErrorMessage(err, false))\<close>, whatever the result.
\<close>

definition onerror :: "string option \<Rightarrow> app_state \<Rightarrow> app_state" where
  "onerror error s =
     (let err = js_or (or_empty error) ''unknown'';
          s1 = s\<lparr> isListening := False,
                   isManualStart := (if hasRecognition s then False else isManualStart s) \<rparr>;
          s2 = s1\<lparr> shouldSendOnStop := False \<rparr>
      in if err = ''network'' then
           s2\<lparr> speechError :=
                 ''Network error. Please check your internet connection and try again.'' \<rparr>
         else if err = ''not-allowed'' \<or> err = ''service-not-allowed'' then
           s2\<lparr> speechError := getMicrophonePermissionErrorMessage err \<rparr>
         else if err = ''no-speech'' then
           s2\<lparr> speechError := ''No speech detected. Please try again and speak clearly.'' \<rparr>
         else
           s2\<lparr> speechError := ''Voice recognition error: '' @ err
                                 @ ''. Please try again or type your message.'' \<rparr>)"

text \<open>
  What \<open>handleVoiceInput\<close> reads from the browser: whether the speech API exists, three
  \<open>indexOf\<close> tests on the user agent, the awaited result of
  \<open>requestMicrophonePermission()\<close>, and whether \<open>recognition.start()\<close> throws (with the
  outcome of the test for a permission error on what it threw).
\<close>

datatype start_outcome = Started | Threw bool

record voice_env =
  isSupported :: bool
  uaFirefox :: bool
  uaSafari :: bool
  uaChrome :: bool
  permissionGranted :: bool
  startOutcome :: start_outcome

text \<open>
  \<open>handleVoiceInput\<close>, the handler of the microphone button and of the Send button of the
  listening overlay. With \<open>isListening\<close> set it is the request to stop and send (the call
  \<open>recognition.stop()\<close> has no effect on the state), otherwise it starts a session. The
  function is \<open>async\<close>; what follows an \<open>await\<close> only sets \<open>speechError\<close> and
  \<open>_isManualStart\<close> and is folded into the same step.
\<close>

definition handleVoiceInput :: "voice_env \<Rightarrow> app_state \<Rightarrow> app_state" where
  "handleVoiceInput env s =
     (if \<not> hasRecognition s then
        (if \<not> isSupported env then
           (let suggestion1 = ''Voice input requires Chrome, Edge, or Safari. Please use one of these browsers or type your message instead.'';
                suggestion2 = ''Please use Chrome or Edge for voice input, or type your message instead.'';
                info = (if uaFirefox env then (''Firefox'', suggestion1)
                        else if uaSafari env \<and> \<not> uaChrome env then (''Safari'', suggestion2)
                        else (''your browser'', suggestion1))
            in s\<lparr> speechError := ''Speech recognition is not supported in '' @ fst info
                                   @ ''. '' @ snd info \<rparr>)
         else if \<not> permissionGranted env then
           s\<lparr> speechError := getMicrophonePermissionErrorMessage ''not-allowed'' \<rparr>
         else
           s\<lparr> speechError :=
                ''Permission granted! Please refresh the page to enable voice input.'' \<rparr>)
      else if isListening s then
        s\<lparr> shouldSendOnStop := True \<rparr>
      else
        (let s1 = s\<lparr> speechError := [], finalTranscript := [], inputValue := [],
                      shouldSendOnStop := False, isManualStart := True,
                      seenFinalTexts := clear_seen (seenFinalTexts s) \<rparr>
         in case startOutcome env of
              Started \<Rightarrow> s1\<lparr> isListening := True \<rparr>
            | Threw permissionError \<Rightarrow>
                s1\<lparr> isListening := False,
                    speechError :=
                      (if permissionError then
                         (if permissionGranted env
                          then ''Permission granted! Please click the microphone button again to use voice input.''
                          else getMicrophonePermissionErrorMessage ''not-allowed'')
                       else ''Could not start voice recognition. Please try again or type your message.''),
                    isManualStart := False \<rparr>))"

text \<open>\<open>handleCancelListening\<close>, the handler of the Cancel button of the listening overlay.\<close>

definition handleCancelListening :: "app_state \<Rightarrow> app_state" where
  "handleCancelListening s =
     (if \<not> hasRecognition s then s
      else s\<lparr> shouldSendOnStop := False, finalTranscript := [], inputValue := [],
              seenFinalTexts := clear_seen (seenFinalTexts s) \<rparr>)"

section \<open>The zone identifier and \<open>handleSendMessage\<close>\<close>

text \<open>
  The effect that reads the zone from the URL, run once after the first render. \<open>query\<close> is
  \<open>params.get('zoneId')\<close> (\<open>None\<close> for \<open>null\<close>), \<open>pathname\<close> is
  \<open>window.location.pathname\<close>. \<open>path.replace(/^\/+/, '').split('/')[0]\<close> drops the leading
  slashes and keeps what comes before the next one.
\<close>

definition readZoneId :: "string option \<Rightarrow> string \<Rightarrow> app_state \<Rightarrow> app_state" where
  "readZoneId query pathname s =
     (let zidFromQuery = trim (or_empty query);
          path = trim (js_or pathname ''/'');
          isRoot = (path = ''/'' \<or> path = []);
          zidFromPath = (if \<not> isRoot
                         then trim (takeWhile (\<lambda>c. c \<noteq> CHR ''/'')
                                      (dropWhile (\<lambda>c. c = CHR ''/'') path))
                         else []);
          zid = trim (js_or (js_or zidFromQuery zidFromPath) [])
      in if zid = [] then s\<lparr> isZoneContext := False \<rparr>
         else (let cleaned = take 64 zid
               in s\<lparr> zoneIdFromUrl := cleaned, isZoneContext := True,
                       selectedAcId := cleaned, speechError := [] \<rparr>))"

text \<open>
  The effect that gives the browser its session identifier, run once after the first
  render, before \<open>readZoneId\<close>. \<open>stored\<close> is \<open>localStorage.getItem('lt_feedback_session_id')\<close>
  (\<open>None\<close> for \<open>null\<close>, or when the storage throws), \<open>generated\<close> the identifier that the
  effect builds otherwise, from \<open>crypto.randomUUID()\<close> or from \<open>Date.now()\<close> and
  \<open>Math.random()\<close>.
\<close>

definition createSessionId :: "string option \<Rightarrow> string \<Rightarrow> app_state \<Rightarrow> app_state" where
  "createSessionId stored generated s =
     (let existing = or_empty stored
      in if js_and existing (trim existing) \<noteq> []
         then s\<lparr> sessionId := trim existing \<rparr>
         else s\<lparr> sessionId := generated \<rparr>)"

text \<open>The component once mounted: the first render followed by the two effects.\<close>

definition mount :: "string option \<Rightarrow> string \<Rightarrow> string option \<Rightarrow> string \<Rightarrow> app_state" where
  "mount stored generated query pathname =
     readZoneId query pathname (createSessionId stored generated init_state)"

text \<open>
  The rolling history of \<open>handleSendMessage\<close>:
  \<open>nextMessages.slice(-10).filter(m => m && typeof m.text === 'string' && m.text.trim().length > 0)
   .map(m => ({role: m.type === 'assistant' ? 'assistant' : 'user', text: String(m.text).slice(0, 500)}))\<close>.
\<close>

definition hasText :: "chat_message \<Rightarrow> bool" where
  "hasText m = (case mtext m of None \<Rightarrow> False | Some t \<Rightarrow> length (trim t) > 0)"

definition toEntry :: "chat_message \<Rightarrow> history_entry" where
  "toEntry m =
     \<lparr> role = (if mtype m = ''assistant'' then ''assistant'' else ''user''),
       htext = take 500 (or_empty (mtext m)) \<rparr>"

definition historyWindow :: "chat_message list \<Rightarrow> history_entry list" where
  "historyWindow nextMessages = map toEntry (filter hasText (slice_last 10 nextMessages))"

text \<open>
  \<open>handleSendMessage\<close>, up to and including the call of \<open>fetch\<close>. \<open>overrideText\<close> is
  \<open>Some t\<close> when the argument is a string (the call scheduled by \<open>onend\<close>) and \<open>None\<close>
  otherwise (the click on the send button passes the click event).
\<close>

definition handleSendMessage :: "string option \<Rightarrow> app_state \<Rightarrow> app_state" where
  "handleSendMessage overrideText s =
     (let raw = (case overrideText of Some t \<Rightarrow> t | None \<Rightarrow> inputValue s);
          message = trim (js_or raw [])
      in if message = [] \<or> isLoading s then s
         else
           (let acId = selectedAcId s
            in if acId = [] then
                 s\<lparr> speechError := ''Please select an AC ID before sending your message.'' \<rparr>
               else
                 (let userMessage = \<lparr> mtype = ''user'', mtext = Some message \<rparr>;
                      nextMessages = messages s @ [userMessage];
                      body = \<lparr> req_message = message,
                               req_zoneId = js_or (zoneIdFromUrl s) acId,
                               req_acId = acId,
                               req_sessionId = sessionId s,
                               req_history = historyWindow nextMessages \<rparr>
                  in s\<lparr> messages := nextMessages, inputValue := [], isLoading := True,
                          posted := posted s @ [body] \<rparr>)))"

text \<open>
  What \<open>handleSendMessage\<close> does once the request has settled: \<open>Replied\<close> carries
  \<open>data.response\<close>, whether \<open>data.llm.ok === false\<close>, and \<open>data.llm.message\<close>; \<open>Failed\<close>
  carries the message of the error thrown (by \<open>fetch\<close>, or for a response that is not ok).
\<close>

datatype fetch_result = Replied "string option" bool "string option" | Failed string

definition handleSendMessage_settled :: "fetch_result \<Rightarrow> app_state \<Rightarrow> app_state" where
  "handleSendMessage_settled r s =
     (case r of
        Replied response llmFailed llmMessage \<Rightarrow>
          s\<lparr> speechError :=
                (if llmFailed
                 then js_or (or_empty llmMessage)
                            ''Gemini is limited right now. Using fallback mode.''
                 else speechError s),
              messages := messages s @ [\<lparr> mtype = ''assistant'', mtext = response \<rparr>],
              isLoading := False \<rparr>
      | Failed msg \<Rightarrow>
          s\<lparr> messages := messages s @ [\<lparr> mtype = ''error'', mtext = Some (''Error: '' @ msg) \<rparr>],
              isLoading := False \<rparr>)"

section \<open>Runs of the component\<close>

text \<open>
  The handlers run one at a time, each to completion. A run is a list of events, each
  handled by its handler. \<open>InputChange v\<close> is the \<open>onChange\<close> of the text area,
  \<open>setInputValue(e.target.value)\<close>; \<open>SendMessage\<close> is a call of \<open>handleSendMessage\<close>, by
  the send button or by the timer that \<open>onend\<close> sets; \<open>Settled\<close> is the end of its request.
\<close>

datatype app_event =
    VoiceInput voice_env
  | CancelListening
  | SendMessage "string option"
  | InputChange string
  | Settled fetch_result
  | OnStart
  | OnResult recog_event
  | OnError "string option"
  | OnEnd

fun step :: "app_event \<Rightarrow> app_state \<Rightarrow> app_state" where
  "step (VoiceInput env) s = handleVoiceInput env s"
| "step CancelListening s = handleCancelListening s"
| "step (SendMessage overrideText) s = handleSendMessage overrideText s"
| "step (InputChange v) s = s\<lparr> inputValue := v \<rparr>"
| "step (Settled r) s = handleSendMessage_settled r s"
| "step OnStart s = onstart s"
| "step (OnResult event) s = onresult event s"
| "step (OnError error) s = onerror error s"
| "step OnEnd s = onend s"

definition run :: "app_event list \<Rightarrow> app_state \<Rightarrow> app_state" where
  "run evs s = fold step evs s"

fun isVoiceInput :: "app_event \<Rightarrow> bool" where
  "isVoiceInput (VoiceInput env) = True"
| "isVoiceInput _ = False"

text \<open>The value of the local \<open>combined\<close> of \<open>onresult\<close>.\<close>

definition combined_text :: "recog_event \<Rightarrow> app_state \<Rightarrow> string" where
  "combined_text event s =
     (case scan_results (results event) (seen_texts s) of
        (seen, finalTextParts, interimText) \<Rightarrow>
          trim ((if length finalTextParts > 0
                 then trim (join_sp finalTextParts) else finalTranscript s)
                @ '' '' @ interimText))"

text \<open>A browser in which the speech API exists and \<open>recognition.start()\<close> succeeds.\<close>

definition chrome :: voice_env where
  "chrome = \<lparr> isSupported = True, uaFirefox = False, uaSafari = True, uaChrome = True,
              permissionGranted = True, startOutcome = Started \<rparr>"

section \<open>The handlers of the variant \<open>unnamed/part_001\<close>\<close>

text \<open>
  \<open>unnamed/part_001\<close> holds another variant of the same component, with the same refs and
  state cells. Its \<open>onresult\<close> walks \<open>event.results\<close> from \<open>event.resultIndex\<close> and appends
  every final chunk; its \<open>onerror\<close> maps the error and sets \<open>isListening\<close>, nothing else.
\<close>

definition scan_step_part001 :: "segment \<Rightarrow> string \<times> string \<Rightarrow> string \<times> string" where
  "scan_step_part001 result acc =
     (case acc of (final, interimTranscript) \<Rightarrow>
        (let chunk = or_empty (transcript result)
         in if isFinal result then (trim (final @ '' '' @ chunk), interimTranscript)
            else (final, interimTranscript @ chunk)))"

definition onresult_part001 :: "recog_event \<Rightarrow> app_state \<Rightarrow> app_state" where
  "onresult_part001 event s =
     (case fold scan_step_part001 (drop (resultIndex event) (results event))
                (finalTranscript s, [])
      of (final, interimTranscript) \<Rightarrow>
        (let combined = trim (final @ '' '' @ interimTranscript)
         in s\<lparr> finalTranscript := final,
               inputValue := (if length combined > 0 then combined else inputValue s),
               speechError := [] \<rparr>))"

definition onerror_part001 :: "string option \<Rightarrow> app_state \<Rightarrow> app_state" where
  "onerror_part001 error s =
     (let err = js_or (or_empty error) ''unknown'';
          s1 = s\<lparr> isListening := False \<rparr>
      in if err = ''network'' then
           s1\<lparr> speechError :=
                 ''Network error. Please check your internet connection and try again.'' \<rparr>
         else if err = ''not-allowed'' \<or> err = ''service-not-allowed'' then
           s1\<lparr> speechError :=
                 ''Please give your browser microphone permission to use voice input.'' \<rparr>
         else if err = ''no-speech'' then
           s1\<lparr> speechError := ''No speech detected. Please try again and speak clearly.'' \<rparr>
         else
           s1\<lparr> speechError := ''Voice recognition error: '' @ err
                                 @ ''. Please try again or type your message.'' \<rparr>)"

definition onend_part001 :: "app_state \<Rightarrow> app_state" where
  "onend_part001 s =
     (let s1 = s\<lparr> isListening := False \<rparr>
      in if shouldSendOnStop s1 then
           (let text = textToSend s1;
                s2 = s1\<lparr> shouldSendOnStop := False, finalTranscript := [], inputValue := [] \<rparr>
            in if text \<noteq> [] then s2\<lparr> autoSent := autoSent s2 @ [text] \<rparr> else s2)
         else s1)"

definition handleVoiceInput_part001 :: "app_state \<Rightarrow> app_state" where
  "handleVoiceInput_part001 s =
     (if \<not> hasRecognition s then
        s\<lparr> speechError :=
             ''Speech recognition is not supported in your browser. Please use text input.'' \<rparr>
      else if isListening s then
        s\<lparr> shouldSendOnStop := True \<rparr>
      else
        s\<lparr> speechError := [], finalTranscript := [], shouldSendOnStop := False,
            isListening := True \<rparr>)"

text \<open>
  \<open>noStopAndSend evs s\<close>: in the run of \<open>evs\<close> from \<open>s\<close>, no click on \<open>handleVoiceInput\<close>
  takes its stop-and-send branch (a recognition object exists and \<open>isListening\<close> is set).
\<close>

fun noStopAndSend :: "app_event list \<Rightarrow> app_state \<Rightarrow> bool" where
  "noStopAndSend [] s = True"
| "noStopAndSend (e # es) s =
     ((isVoiceInput e \<longrightarrow> \<not> (hasRecognition s \<and> isListening s))
      \<and> noStopAndSend es (step e s))"

text \<open>An event without its interim segments.\<close>

definition finals_only :: "recog_event \<Rightarrow> recog_event" where
  "finals_only event = event\<lparr> results := filter isFinal (results event) \<rparr>"

text \<open>
  What the rendered page and the browser can deliver in a state. Outside a zone context
  (\<open>!isZoneContext\<close>) the component renders the dashboard header only: the text area, the
  microphone button, the send button and the listening overlay exist in a zone context
  alone. There the text area and the microphone button are disabled while a request is
  in flight, the send button while the input is blank or a request is in flight, and the
  overlay, with its Cancel and Send buttons, exists while \<open>isListening\<close>. The send button
  passes its click event, not a string; a string comes from the timer that \<open>onend\<close> has
  set. A request settles when one is in flight; the stream events come from the
  recognition object.
\<close>

fun offered :: "app_event \<Rightarrow> app_state \<Rightarrow> bool" where
  "offered (VoiceInput env) s = (isZoneContext s \<and> (isListening s \<or> \<not> isLoading s))"
| "offered CancelListening s = (isZoneContext s \<and> isListening s)"
| "offered (SendMessage None) s =
     (isZoneContext s \<and> trim (inputValue s) \<noteq> [] \<and> \<not> isLoading s)"
| "offered (SendMessage (Some t)) s = (t \<in> set (autoSent s))"
| "offered (InputChange v) s = (isZoneContext s \<and> \<not> isLoading s)"
| "offered (Settled r) s = isLoading s"
| "offered OnStart s = hasRecognition s"
| "offered (OnResult event) s = hasRecognition s"
| "offered (OnError error) s = hasRecognition s"
| "offered OnEnd s = hasRecognition s"

fun receivable :: "app_event list \<Rightarrow> app_state \<Rightarrow> bool" where
  "receivable [] s = True"
| "receivable (e # es) s = (offered e s \<and> receivable es (step e s))"


section \<open>Sample inputs\<close>

text \<open>Events, states and a conversation on which the theorems below are instantiated.\<close>

definition too_cold :: recog_event where
  "too_cold = \<lparr> resultIndex = 0, results = [Segment (Some ''too cold'') True] \<rparr>"

definition interim_too :: recog_event where
  "interim_too = \<lparr> resultIndex = 0, results = [Segment (Some ''too'') False] \<rparr>"

definition blank_event :: recog_event where
  "blank_event =
     \<lparr> resultIndex = 0, results = [Segment (Some ''  '') False, Segment None True] \<rparr>"

definition too_cold_and :: recog_event where
  "too_cold_and =
     \<lparr> resultIndex = 1,
       results = [Segment (Some ''too cold'') True, Segment (Some ''and'') False] \<rparr>"

definition too_cold_and_final :: recog_event where
  "too_cold_and_final =
     \<lparr> resultIndex = 1,
       results = [Segment (Some ''too cold'') True, Segment (Some ''and'') True] \<rparr>"

definition no_segments :: recog_event where
  "no_segments = \<lparr> resultIndex = 0, results = [] \<rparr>"

text \<open>
  The page opened at \<open>/?zoneId=ZONE_7\<close>, and at \<open>/\<close>, in a browser without a stored session
  identifier.
\<close>

definition zone7 :: app_state where
  "zone7 = mount None ''lx2k9_4f7a1c0e'' (Some ''ZONE_7'') ''/''"

definition no_zone :: app_state where
  "no_zone = mount None ''lx2k9_4f7a1c0e'' None ''/''"

text \<open>The session on \<open>zone7\<close> that has heard the final \<open>too cold\<close> and the interim \<open>and\<close>.\<close>

definition hearing :: app_state where
  "hearing = run [VoiceInput chrome, OnStart, OnResult too_cold, OnResult too_cold_and] zone7"

definition started :: app_state where
  "started = run [VoiceInput chrome, OnStart] init_state"

definition dictated :: app_state where
  "dictated = run [VoiceInput chrome, OnStart, OnResult too_cold, VoiceInput chrome] init_state"

definition long_chat :: "chat_message list" where
  "long_chat =
     [\<lparr> mtype = ''user'', mtext = Some ''m1'' \<rparr>,
      \<lparr> mtype = ''assistant'', mtext = Some ''r1'' \<rparr>,
      \<lparr> mtype = ''user'', mtext = Some ''m2'' \<rparr>,
      \<lparr> mtype = ''assistant'', mtext = None \<rparr>,
      \<lparr> mtype = ''assistant'', mtext = Some ''   '' \<rparr>,
      \<lparr> mtype = ''error'', mtext = Some ''Error: Failed to get response'' \<rparr>,
      \<lparr> mtype = ''user'', mtext = Some ''m3'' \<rparr>,
      \<lparr> mtype = ''assistant'', mtext = Some (replicate 600 (CHR ''a'')) \<rparr>,
      \<lparr> mtype = ''user'', mtext = Some ''m4'' \<rparr>,
      \<lparr> mtype = ''assistant'', mtext = Some ''r4'' \<rparr>,
      \<lparr> mtype = ''user'', mtext = Some ''m5'' \<rparr>,
      \<lparr> mtype = ''assistant'', mtext = Some ''r5'' \<rparr>]"

definition hi_body :: request where
  "hi_body =
     \<lparr> req_message = ''hi'', req_zoneId = ''ZONE_7'', req_acId = ''ZONE_7'',
       req_sessionId = ''lx2k9_4f7a1c0e'',
       req_history =
         [\<lparr> role = ''user'', htext = ''Error: Failed to get response'' \<rparr>,
          \<lparr> role = ''user'', htext = ''m3'' \<rparr>,
          \<lparr> role = ''assistant'', htext = replicate 500 (CHR ''a'') \<rparr>,
          \<lparr> role = ''user'', htext = ''m4'' \<rparr>,
          \<lparr> role = ''assistant'', htext = ''r4'' \<rparr>,
          \<lparr> role = ''user'', htext = ''m5'' \<rparr>,
          \<lparr> role = ''assistant'', htext = ''r5'' \<rparr>,
          \<lparr> role = ''user'', htext = ''hi'' \<rparr>] \<rparr>"

section \<open>Evaluation and strings\<close>

lemma char_of_bits:
  "char_of (n::nat) = Char (odd n) (odd (n div 2)) (odd (n div 4)) (odd (n div 8))
                           (odd (n div 16)) (odd (n div 32)) (odd (n div 64)) (odd (n div 128))"
  by (simp add: char_of_def bit_iff_odd)

lemmas eval_defs =
  run_def onresult_def scan_results_def scan_step_def seen_texts_def trim_def isWhiteSpace_def
  toLowerCase_def lowerChar_def or_empty_def js_or_def js_and_def init_state_def char_of_bits
  onend_def onstart_def onerror_def handleVoiceInput_def handleCancelListening_def
  handleSendMessage_def textToSend_def clear_seen_def chrome_def Let_def
  historyWindow_def hasText_def toEntry_def slice_last_def readZoneId_def
  createSessionId_def mount_def

lemmas eval_part001 =
  onresult_part001_def scan_step_part001_def onerror_part001_def onend_part001_def
  handleVoiceInput_part001_def

lemmas sample_defs =
  too_cold_def interim_too_def blank_event_def started_def dictated_def
  long_chat_def hi_body_def finals_only_def combined_text_def
  too_cold_and_def too_cold_and_final_def no_segments_def zone7_def no_zone_def hearing_def

lemma started_eq:
  "started = init_state\<lparr> isListening := True \<rparr>"
  by (simp add: sample_defs eval_defs)

lemma dictated_eq:
  "dictated = init_state\<lparr> isListening := True, shouldSendOnStop := True,
                 finalTranscript := ''too cold'', inputValue := ''too cold'',
                 seenFinalTexts := Some [''too cold''] \<rparr>"
  by (simp add: sample_defs eval_defs)

lemma interim_too_started_eq:
  "onresult interim_too started
     = init_state\<lparr> isListening := True, inputValue := ''too'', seenFinalTexts := Some [] \<rparr>"
  by (simp add: sample_defs eval_defs)

lemma trim_eq_Nil_iff: "trim s = [] \<longleftrightarrow> (\<forall>c\<in>set s. isWhiteSpace c)"
proof
  assume "trim s = []"
  then have all: "\<forall>c\<in>set (dropWhile isWhiteSpace s). isWhiteSpace c"
    by (simp add: trim_def)
  have "dropWhile isWhiteSpace s = []"
  proof (rule ccontr)
    assume ne: "dropWhile isWhiteSpace s \<noteq> []"
    then have "\<not> isWhiteSpace (hd (dropWhile isWhiteSpace s))" by (rule hd_dropWhile)
    moreover have "hd (dropWhile isWhiteSpace s) \<in> set (dropWhile isWhiteSpace s)"
      using ne by simp
    ultimately show False using all by blast
  qed
  then show "\<forall>c\<in>set s. isWhiteSpace c" by simp
next
  assume "\<forall>c\<in>set s. isWhiteSpace c"
  then have d: "dropWhile isWhiteSpace s = []" by simp
  show "trim s = []" by (simp only: trim_def d rev.simps dropWhile.simps)
qed

lemma trim_append_space_Nil: "trim s = [] \<Longrightarrow> trim (s @ '' '') = []"
  by (simp add: trim_eq_Nil_iff isWhiteSpace_def)

lemma trim_append_space: "trim (s @ '' '') = trim s"
proof (cases "\<forall>c\<in>set s. isWhiteSpace c")
  case True
  then have "trim s = []" by (simp add: trim_eq_Nil_iff)
  then show ?thesis by (simp add: trim_append_space_Nil)
next
  case False
  then obtain x where x: "x \<in> set s" "\<not> isWhiteSpace x" by blast
  then have d: "dropWhile isWhiteSpace (s @ '' '') = dropWhile isWhiteSpace s @ '' ''"
    by (rule dropWhile_append1)
  have sp: "isWhiteSpace (CHR '' '')" by (simp add: isWhiteSpace_def)
  show ?thesis by (simp add: trim_def d sp)
qed

lemma hearing_eq:
  "hearing = zone7\<lparr> isListening := True, finalTranscript := ''too cold'',
                  inputValue := ''too cold and'', seenFinalTexts := Some [''too cold''] \<rparr>"
  by (simp add: sample_defs eval_defs)

section \<open>The reconciler keeps only the finals of the latest accepting event\<close>

text \<open>
  An event that accepts a new final replaces \<open>finalText\<close> by the join of the finals it has
  accepted itself, whatever \<open>finalText\<close> was.
\<close>

lemma accepted_finals_replace_transcript:
  "scan_results (results event) (seen_texts s) = (seen, parts, interim) \<Longrightarrow> parts \<noteq> [] \<Longrightarrow>
   finalTranscript (onresult event s) = trim (join_sp parts)"
  by (simp add: onresult_def Let_def)

text \<open>
  C1. The claim is that the final segments accepted over the events of a session appear in
  \<open>finalText\<close> in the order of their first acceptance, and that a final accepted earlier
  stays there when a later event accepts a new one. \<open>onresult\<close> does not do that:
  \<open>finalTextParts\<close> starts empty at every event and receives only the finals that are not
  yet in \<open>_seenFinalTexts\<close>, and \<open>finalTranscriptRef.current\<close> is overwritten with their
  join. After \<open>turn it up\<close> in a first event, a second event that redelivers it and adds
  \<open>please\<close> leaves \<open>please\<close> alone in \<open>finalText\<close>; so does a second event that brings
  only \<open>please\<close>.
\<close>

theorem C1_later_event_drops_accepted_final:
  "finalTranscript (run [VoiceInput chrome, OnStart,
      OnResult \<lparr> resultIndex = 0, results = [Segment (Some ''turn it up'') True] \<rparr>,
      OnResult \<lparr> resultIndex = 1, results = [Segment (Some ''turn it up'') True,
                                             Segment (Some ''please'') True] \<rparr>]
     init_state) = ''please''
   \<and> finalTranscript (run [VoiceInput chrome, OnStart,
      OnResult \<lparr> resultIndex = 0, results = [Segment (Some ''turn it up'') True] \<rparr>,
      OnResult \<lparr> resultIndex = 1, results = [Segment (Some ''please'') True] \<rparr>]
     init_state) = ''please''"
  by (simp add: eval_defs)

text \<open>
  The same happens in a run that the page opened for \<open>ZONE_7\<close> can receive: after
  \<open>too cold\<close>, the event that redelivers it and adds the final \<open>and\<close> leaves \<open>and\<close> alone.
\<close>

lemma redelivery_on_zone_page:
  "receivable [VoiceInput chrome, OnStart, OnResult too_cold, OnResult too_cold_and_final] zone7
   \<and> finalTranscript (run [VoiceInput chrome, OnStart, OnResult too_cold,
                            OnResult too_cold_and_final] zone7) = ''and''"
  by (simp add: sample_defs eval_defs)

text \<open>
  C5. The claim is that a final text fed in two events of a session, equal up to case and
  surrounding white space, is in \<open>finalText\<close> exactly once, in the casing of its first
  acceptance. The repetition is indeed never accepted twice, but the first acceptance is
  lost as soon as the event that repeats it also brings a new final: after \<open>Hello\<close>, the
  event with \<open>hello\<close> and \<open>world\<close> leaves \<open>world\<close> alone, and \<open>Hello\<close> is in \<open>finalText\<close>
  not once but never.
\<close>

theorem C5_repeated_final_lost_with_new_final:
  "finalTranscript (run [VoiceInput chrome, OnStart,
      OnResult \<lparr> resultIndex = 0, results = [Segment (Some ''Hello'') True] \<rparr>,
      OnResult \<lparr> resultIndex = 0, results = [Segment (Some '' hello '') True,
                                             Segment (Some ''world'') True] \<rparr>]
     init_state) = ''world''"
  by (simp add: eval_defs)

text \<open>
  When the event that repeats it accepts nothing new, the first acceptance stays, in its
  own casing.
\<close>

lemma repeated_final_alone_is_kept:
  "finalTranscript (run [VoiceInput chrome, OnStart,
      OnResult \<lparr> resultIndex = 0, results = [Segment (Some ''Hello'') True] \<rparr>,
      OnResult \<lparr> resultIndex = 0, results = [Segment (Some '' hello '') True] \<rparr>]
     init_state) = ''Hello''"
  by (simp add: eval_defs)

section \<open>Interim segments\<close>

lemma scan_step_final_only:
  "scan_step r (seen, parts, i) = (a, b, c) \<Longrightarrow>
   (if isFinal r then scan_step r (seen, parts, i0) else (seen, parts, i0)) = (a, b, i0)"
  by (auto simp add: scan_step_def Let_def split: if_splits)

lemma fold_scan_final_only:
  "fold scan_step rs (seen, parts, i) = (a, b, c) \<Longrightarrow>
   fold scan_step (filter isFinal rs) (seen, parts, i0) = (a, b, i0)"
proof (induction rs arbitrary: seen parts i)
  case Nil
  then show ?case by simp
next
  case (Cons r rs)
  obtain seen1 parts1 i1 where st: "scan_step r (seen, parts, i) = (seen1, parts1, i1)"
    by (cases "scan_step r (seen, parts, i)") auto
  with Cons.prems have "fold scan_step rs (seen1, parts1, i1) = (a, b, c)" by simp
  then have ih: "fold scan_step (filter isFinal rs) (seen1, parts1, i0) = (a, b, i0)"
    by (rule Cons.IH)
  from st have "(if isFinal r then scan_step r (seen, parts, i0) else (seen, parts, i0))
                  = (seen1, parts1, i0)"
    by (rule scan_step_final_only)
  with ih show ?case by (simp split: if_splits)
qed

lemma scan_results_final_only:
  "scan_results rs seen = (a, b, c) \<Longrightarrow> scan_results (filter isFinal rs) seen = (a, b, [])"
  unfolding scan_results_def by (rule fold_scan_final_only)

lemma onresult_finals_only:
  "onresult event s
     = (onresult (finals_only event) s)\<lparr> inputValue := inputValue (onresult event s) \<rparr>"
proof -
  obtain a b c where sc: "scan_results (results event) (seen_texts s) = (a, b, c)"
    by (cases "scan_results (results event) (seen_texts s)") auto
  then have "scan_results (filter isFinal (results event)) (seen_texts s) = (a, b, [])"
    by (rule scan_results_final_only)
  with sc show ?thesis by (simp add: onresult_def finals_only_def Let_def)
qed

lemma combined_text_inputValue:
  "combined_text event (s\<lparr> inputValue := x \<rparr>) = combined_text event s"
  by (simp add: combined_text_def seen_texts_def split: prod.splits)

lemma onresult_overwrites:
  assumes "combined_text event s \<noteq> []"
  shows "onresult event (s\<lparr> inputValue := x \<rparr>) = onresult event s"
proof -
  obtain a b c where sc: "scan_results (results event) (seen_texts s) = (a, b, c)"
    by (cases "scan_results (results event) (seen_texts s)") auto
  have st: "seen_texts (s\<lparr> inputValue := x \<rparr>) = seen_texts s" by (simp add: seen_texts_def)
  from assms sc show ?thesis
    by (cases "b = []") (simp_all add: onresult_def combined_text_def st Let_def)
qed

lemma onresult_inputValue:
  "inputValue (onresult event s) =
     (if length (combined_text event s) > 0 then combined_text event s else inputValue s)"
  by (simp add: onresult_def combined_text_def Let_def split: prod.splits)

text \<open>
  C6. An interim segment never becomes part of \<open>finalText\<close>: \<open>finalTranscriptRef\<close> and the
  Set of seen finals after an event are those that the same event without its interim
  segments gives, and the whole state differs from that one in the displayed text alone.
  The interim text is shown for its own event only: as soon as a later event publishes a
  display text (its combined text is not empty), the state is the one reached had the
  interim segments never been delivered.
\<close>

theorem C6_interim_never_final:
  "finalTranscript (onresult event s) = finalTranscript (onresult (finals_only event) s)
   \<and> seenFinalTexts (onresult event s) = seenFinalTexts (onresult (finals_only event) s)
   \<and> onresult event s
       = (onresult (finals_only event) s)\<lparr> inputValue := inputValue (onresult event s) \<rparr>
   \<and> (combined_text later (onresult event s) \<noteq> [] \<longrightarrow>
        onresult later (onresult event s) = onresult later (onresult (finals_only event) s))"
proof -
  let ?A = "onresult event s" and ?B = "onresult (finals_only event) s"
  have eq: "?A = ?B\<lparr> inputValue := inputValue ?A \<rparr>" by (rule onresult_finals_only)
  have f: "finalTranscript ?A = finalTranscript ?B"
    by (subst eq) simp
  have sn: "seenFinalTexts ?A = seenFinalTexts ?B"
    by (subst eq) simp
  have sup: "combined_text later ?A \<noteq> [] \<longrightarrow> onresult later ?A = onresult later ?B"
  proof
    assume ne: "combined_text later ?A \<noteq> []"
    have "combined_text later ?A = combined_text later (?B\<lparr> inputValue := inputValue ?A \<rparr>)"
      using eq by simp
    then have "combined_text later ?B \<noteq> []" using ne by (simp add: combined_text_inputValue)
    then have "onresult later (?B\<lparr> inputValue := inputValue ?A \<rparr>) = onresult later ?B"
      by (rule onresult_overwrites)
    with eq show "onresult later ?A = onresult later ?B" by simp
  qed
  from f sn eq sup show ?thesis by blast
qed

text \<open>
  C6 on the interim \<open>too\<close> followed by the final \<open>too cold\<close>: the interim text is displayed,
  \<open>finalText\<close> stays empty, and after the final nothing is left of it.
\<close>

theorem C6_interim_never_final_witness:
  "combined_text too_cold (onresult interim_too started) \<noteq> []
   \<and> finalTranscript (onresult interim_too started) = []
   \<and> inputValue (onresult interim_too started) = ''too''
   \<and> onresult too_cold (onresult interim_too started)
       = onresult too_cold (onresult (finals_only interim_too) started)
   \<and> inputValue (onresult too_cold (onresult (finals_only interim_too) started)) = ''too cold''"
proof -
  let ?s = "onresult interim_too started"
  have h: "combined_text too_cold ?s \<noteq> []"
    by (simp add: sample_defs eval_defs)
  have c: "onresult too_cold ?s = onresult too_cold (onresult (finals_only interim_too) started)"
    using C6_interim_never_final [of interim_too started too_cold] h by blast
  have f: "finalTranscript ?s = [] \<and> inputValue ?s = ''too''"
    by (simp add: interim_too_started_eq init_state_def)
  have v: "inputValue (onresult too_cold (onresult (finals_only interim_too) started))
           = ''too cold''"
    by (simp add: sample_defs eval_defs)
  from h c f v show ?thesis by blast
qed

lemma scan_step_blank:
  "trim (or_empty (transcript r)) = [] \<Longrightarrow> scan_step r acc = acc"
  by (simp add: scan_step_def split: prod.splits)

lemma fold_scan_blank:
  "\<forall>r\<in>set rs. trim (or_empty (transcript r)) = [] \<Longrightarrow> fold scan_step rs acc = acc"
  by (induction rs arbitrary: acc) (simp_all add: scan_step_blank)

text \<open>
  C10, amended. An event whose combined final-plus-interim text is empty after trimming
  leaves the displayed text as it was, and no event replaces a displayed text that is not
  empty by the empty string. An event without segments, or with blank segments only,
  leaves \<open>finalText\<close> as it was and has the trimmed \<open>finalText\<close> as its combined text: it
  leaves the display unchanged when \<open>finalText\<close> is blank, and publishes the trimmed
  \<open>finalText\<close> otherwise, which drops an interim text displayed until then.
\<close>

theorem C10_blank_event_display:
  "(combined_text event s = [] \<longrightarrow> inputValue (onresult event s) = inputValue s)
   \<and> (inputValue s \<noteq> [] \<longrightarrow> inputValue (onresult event s) \<noteq> [])
   \<and> ((\<forall>r\<in>set (results event). trim (or_empty (transcript r)) = []) \<longrightarrow>
        finalTranscript (onresult event s) = finalTranscript s
        \<and> combined_text event s = trim (finalTranscript s)
        \<and> inputValue (onresult event s)
            = (if trim (finalTranscript s) = [] then inputValue s
               else trim (finalTranscript s)))"
proof (intro conjI impI)
  assume "combined_text event s = []"
  then show "inputValue (onresult event s) = inputValue s" by (simp add: onresult_inputValue)
next
  assume "inputValue s \<noteq> []"
  then show "inputValue (onresult event s) \<noteq> []" by (simp add: onresult_inputValue)
next
  assume a: "\<forall>r\<in>set (results event). trim (or_empty (transcript r)) = []"
  then have f: "scan_results (results event) (seen_texts s) = (seen_texts s, [], [])"
    by (simp add: scan_results_def fold_scan_blank)
  from f show c: "combined_text event s = trim (finalTranscript s)"
    using trim_append_space [of "finalTranscript s"] by (simp add: combined_text_def)
  then show "inputValue (onresult event s)
            = (if trim (finalTranscript s) = [] then inputValue s
               else trim (finalTranscript s))"
    by (simp add: onresult_inputValue)
  from f show "finalTranscript (onresult event s) = finalTranscript s"
    by (simp add: onresult_def Let_def)
qed

text \<open>
  C10 on an event of two blank segments: after the interim \<open>too\<close> alone, with \<open>finalText\<close>
  empty, the display keeps \<open>too\<close>; after the final \<open>too cold\<close> and the interim \<open>and\<close>, the
  display goes from \<open>too cold and\<close> to \<open>too cold\<close>.
\<close>

theorem C10_blank_event_display_witness:
  "map (\<lambda>r. trim (or_empty (transcript r))) (results blank_event) = [[], []]
   \<and> finalTranscript (onresult interim_too started) = []
   \<and> inputValue (onresult interim_too started) = ''too''
   \<and> combined_text blank_event (onresult interim_too started) = []
   \<and> inputValue (onresult blank_event (onresult interim_too started)) = ''too''
   \<and> finalTranscript hearing = ''too cold''
   \<and> inputValue hearing = ''too cold and''
   \<and> inputValue (onresult blank_event hearing) = ''too cold''"
proof -
  let ?s = "onresult interim_too started"
  have m: "map (\<lambda>r. trim (or_empty (transcript r))) (results blank_event) = [[], []]"
    by (simp add: blank_event_def trim_def isWhiteSpace_def or_empty_def)
  have h1: "\<forall>r\<in>set (results blank_event). trim (or_empty (transcript r)) = []"
    by (simp add: blank_event_def trim_def isWhiteSpace_def or_empty_def)
  have f1: "finalTranscript ?s = [] \<and> inputValue ?s = ''too''"
    by (simp add: interim_too_started_eq init_state_def)
  have t1: "trim (finalTranscript ?s) = []" using f1 by (simp add: trim_def)
  have c1: "combined_text blank_event ?s = [] \<and> inputValue (onresult blank_event ?s) = ''too''"
    using C10_blank_event_display [of blank_event ?s] h1 t1 f1 by simp
  have f2: "finalTranscript hearing = ''too cold'' \<and> inputValue hearing = ''too cold and''"
    by (simp add: hearing_eq)
  have t2: "trim (finalTranscript hearing) = ''too cold''"
    using f2 by (simp add: trim_def isWhiteSpace_def)
  have c2: "inputValue (onresult blank_event hearing) = ''too cold''"
    using C10_blank_event_display [of blank_event hearing] h1 t2 by simp
  from m f1 c1 f2 c2 show ?thesis by simp
qed

text \<open>
  C10 as first stated has every event without segments, or with empty segments only,
  leave the display unchanged. In the session that has heard the final \<open>too cold\<close> and
  the interim \<open>and\<close> the display is \<open>too cold and\<close>; an event without segments, and an
  event of two blank segments, each set it to \<open>too cold\<close>.
\<close>

theorem C10_event_without_segments_resets_display:
  "inputValue hearing = ''too cold and''
   \<and> results no_segments = []
   \<and> inputValue (onresult no_segments hearing) = ''too cold''
   \<and> map (\<lambda>r. trim (or_empty (transcript r))) (results blank_event) = [[], []]
   \<and> inputValue (onresult blank_event hearing) = ''too cold''"
  by (simp add: sample_defs eval_defs)

section \<open>The auto-send intent\<close>

text \<open>What each handler does to the intent flag and to the texts handed over for sending.\<close>

lemma onresult_intent: "shouldSendOnStop (onresult event s) = shouldSendOnStop s"
  and onresult_autoSent: "autoSent (onresult event s) = autoSent s"
  by (simp_all add: onresult_def Let_def split: prod.splits)

lemma onstart_intent: "shouldSendOnStop (onstart s) = shouldSendOnStop s"
  and onstart_autoSent: "autoSent (onstart s) = autoSent s"
  by (simp_all add: onstart_def)

lemma onerror_intent: "\<not> shouldSendOnStop (onerror error s)"
  and onerror_autoSent: "autoSent (onerror error s) = autoSent s"
  by (simp_all add: onerror_def Let_def)

lemma onend_intent: "\<not> shouldSendOnStop (onend s)"
  by (simp add: onend_def Let_def)

lemma onend_autoSent:
  "autoSent (onend s) =
     autoSent s @ (if shouldSendOnStop s \<and> textToSend s \<noteq> [] then [textToSend s] else [])"
  by (simp add: onend_def Let_def textToSend_def)

lemma cancel_intent: "shouldSendOnStop (handleCancelListening s) \<Longrightarrow> shouldSendOnStop s"
  and cancel_autoSent: "autoSent (handleCancelListening s) = autoSent s"
  by (simp_all add: handleCancelListening_def split: if_splits)

lemma send_intent: "shouldSendOnStop (handleSendMessage t s) = shouldSendOnStop s"
  and send_autoSent: "autoSent (handleSendMessage t s) = autoSent s"
  by (simp_all add: handleSendMessage_def Let_def)

lemma settled_intent: "shouldSendOnStop (handleSendMessage_settled r s) = shouldSendOnStop s"
  and settled_autoSent: "autoSent (handleSendMessage_settled r s) = autoSent s"
  by (simp_all add: handleSendMessage_settled_def split: fetch_result.splits)

lemma voice_autoSent: "autoSent (handleVoiceInput env s) = autoSent s"
  by (simp add: handleVoiceInput_def Let_def split: start_outcome.splits)

lemma voice_start_intent:
  "\<not> (hasRecognition s \<and> isListening s) \<Longrightarrow> \<not> shouldSendOnStop s \<Longrightarrow>
   \<not> shouldSendOnStop (handleVoiceInput env s)"
  by (auto simp add: handleVoiceInput_def Let_def split: start_outcome.splits)

lemma step_without_intent:
  assumes "\<not> shouldSendOnStop s"
    and "isVoiceInput e \<longrightarrow> \<not> (hasRecognition s \<and> isListening s)"
  shows "\<not> shouldSendOnStop (step e s) \<and> autoSent (step e s) = autoSent s"
proof (cases e)
  case (VoiceInput env)
  then show ?thesis using assms by (simp add: voice_autoSent voice_start_intent)
next
  case CancelListening
  then show ?thesis using assms cancel_intent [of s] by (auto simp add: cancel_autoSent)
next
  case (SendMessage t)
  then show ?thesis using assms by (simp add: send_intent send_autoSent)
next
  case (InputChange v)
  then show ?thesis using assms by simp
next
  case (Settled r)
  then show ?thesis using assms by (simp add: settled_intent settled_autoSent)
next
  case OnStart
  then show ?thesis using assms by (simp add: onstart_intent onstart_autoSent)
next
  case (OnResult ev)
  then show ?thesis using assms by (simp add: onresult_intent onresult_autoSent)
next
  case (OnError er)
  then show ?thesis using assms by (simp add: onerror_intent onerror_autoSent)
next
  case OnEnd
  then show ?thesis using assms by (simp add: onend_intent onend_autoSent)
qed

lemma run_without_intent:
  "\<not> shouldSendOnStop s \<Longrightarrow> noStopAndSend evs s \<Longrightarrow>
   \<not> shouldSendOnStop (run evs s) \<and> autoSent (run evs s) = autoSent s"
proof (induction evs arbitrary: s)
  case Nil
  then show ?case by (simp add: run_def)
next
  case (Cons e evs)
  from Cons.prems have st: "\<not> shouldSendOnStop (step e s) \<and> autoSent (step e s) = autoSent s"
    using step_without_intent [of s e] by simp
  from Cons.prems have "noStopAndSend evs (step e s)" by simp
  with st Cons.IH [of "step e s"] show ?case by (simp add: run_def)
qed

text \<open>
  C7. From a state in which the intent flag is clear (every start of a session clears it),
  a run in which \<open>handleVoiceInput\<close> never takes its stop-and-send branch hands no text to
  \<open>handleSendMessage\<close>: whatever results, errors, cancellations, manual sends and stream
  ends it contains, and whatever final or interim text it has gathered, \<open>autoSent\<close> stays
  as it was.
\<close>

theorem C7_no_send_without_intent:
  assumes "\<not> shouldSendOnStop s" and "noStopAndSend evs s"
  shows "autoSent (run evs s) = autoSent s"
  using assms run_without_intent by blast

text \<open>
  C7 on a session that starts, hears \<open>too cold\<close> and ends twice by itself: nothing is sent.
\<close>

theorem C7_no_send_without_intent_witness:
  "\<not> shouldSendOnStop init_state
   \<and> noStopAndSend [VoiceInput chrome, OnStart, OnResult too_cold, OnEnd, OnEnd] init_state
   \<and> autoSent (run [VoiceInput chrome, OnStart, OnResult too_cold, OnEnd, OnEnd] init_state)
       = []"
proof -
  let ?evs = "[VoiceInput chrome, OnStart, OnResult too_cold, OnEnd, OnEnd]"
  have h1: "\<not> shouldSendOnStop init_state" by (simp add: init_state_def)
  have h2: "noStopAndSend ?evs init_state" by (simp add: sample_defs eval_defs)
  have "autoSent (run ?evs init_state) = autoSent init_state"
    using C7_no_send_without_intent [OF h1 h2] .
  then show ?thesis using h1 h2 by (simp add: init_state_def)
qed

text \<open>
  C2, amended. When the stream ends with the intent flag set, \<open>onend\<close> hands
  \<open>textToSend\<close> (the trimmed \<open>finalText\<close>, or else the trimmed displayed text) to
  \<open>handleSendMessage\<close> exactly once if it is not empty, and not at all if it is empty;
  whatever follows without a new stop-and-send request, further stream ends included,
  hands over nothing more.
\<close>

theorem C2_dispatch_once_when_text:
  assumes "shouldSendOnStop s" and "noStopAndSend evs (onend s)"
  shows "autoSent (run (OnEnd # evs) s)
         = autoSent s @ (if textToSend s \<noteq> [] then [textToSend s] else [])"
proof -
  have "autoSent (run evs (onend s)) = autoSent (onend s)"
    using run_without_intent [of "onend s" evs] assms(2) by (simp add: onend_intent)
  then show ?thesis using assms(1) by (simp add: run_def onend_autoSent)
qed

text \<open>
  C2 on the dictation of \<open>too cold\<close> closed with Send, whose stream then ends three times
  and redelivers the final in between: \<open>too cold\<close> is handed over once.
\<close>

theorem C2_dispatch_once_when_text_witness:
  "shouldSendOnStop dictated
   \<and> noStopAndSend [OnResult too_cold, OnEnd, OnEnd] (onend dictated)
   \<and> autoSent (run [OnEnd, OnResult too_cold, OnEnd, OnEnd] dictated) = [''too cold'']"
proof -
  have h1: "shouldSendOnStop dictated" by (simp add: dictated_eq init_state_def)
  have h2: "noStopAndSend [OnResult too_cold, OnEnd, OnEnd] (onend dictated)" by simp
  have t: "textToSend dictated = ''too cold''"
    by (simp add: dictated_eq eval_defs)
  have a: "autoSent dictated = []" by (simp add: dictated_eq init_state_def)
  show ?thesis using C2_dispatch_once_when_text [OF h1 h2] h1 h2 t a by simp
qed

text \<open>
  C2 as first stated asks for exactly one dispatch for every dictation closed with the
  intent set. A session that is started and closed with Send before anything was heard has
  the intent set, and its stream end hands over nothing.
\<close>

theorem C2_silent_dictation_not_dispatched:
  "shouldSendOnStop (run [VoiceInput chrome, OnStart, VoiceInput chrome] init_state)
   \<and> autoSent (run [VoiceInput chrome, OnStart, VoiceInput chrome, OnEnd] init_state) = []"
  by (simp add: eval_defs)

lemma silent_dictation_on_zone_page:
  "receivable [VoiceInput chrome, OnStart, VoiceInput chrome, OnEnd] zone7
   \<and> shouldSendOnStop (run [VoiceInput chrome, OnStart, VoiceInput chrome] zone7)
   \<and> autoSent (run [VoiceInput chrome, OnStart, VoiceInput chrome, OnEnd] zone7) = []"
  by (simp add: sample_defs eval_defs)

section \<open>Stream errors\<close>

text \<open>
  In \<open>src/App.js\<close>, \<open>onerror\<close> clears the intent flag, so that neither the error nor the
  stream end after it hands any text over.
\<close>

lemma onerror_then_no_send:
  "noStopAndSend evs (onerror error s) \<Longrightarrow>
   \<not> shouldSendOnStop (onerror error s)
   \<and> autoSent (run (OnError error # evs) s) = autoSent s"
  using run_without_intent [of "onerror error s" evs]
  by (simp add: run_def onerror_intent onerror_autoSent)

text \<open>
  C3. The claim is that a stream error clears the pending intent, so that the stream end
  after it hands no text over. The \<open>onerror\<close> of \<open>unnamed/part_001\<close> leaves
  \<open>shouldSendOnStopRef\<close> as it is: when \<open>too cold\<close> was dictated and Send clicked, a
  \<open>network\<close> error followed by the stream end hands \<open>too cold\<close> to \<open>handleSendMessage\<close>.
\<close>

theorem C3_part001_error_then_end_sends:
  "shouldSendOnStop (onerror_part001 (Some ''network'')
      (handleVoiceInput_part001 (onresult_part001 too_cold
         (handleVoiceInput_part001 init_state))))
   \<and> autoSent (onend_part001 (onerror_part001 (Some ''network'')
      (handleVoiceInput_part001 (onresult_part001 too_cold
         (handleVoiceInput_part001 init_state))))) = [''too cold'']"
  by (simp add: too_cold_def eval_part001 eval_defs)

section \<open>Cancelling\<close>

text \<open>
  What \<open>handleCancelListening\<close> does at once: with a recognition object it leaves
  \<open>finalText\<close> and the displayed text empty, the Set of seen finals empty and the intent
  clear, and cancelling twice is cancelling once. \<open>isListening\<close> is reset by the stream end
  that \<open>recognition.stop()\<close> brings, not by the handler; when that end comes next, the
  texts are still empty and nothing is sent. The page offers the Cancel button while
  \<open>isListening\<close> only.
\<close>

lemma cancel_clears_at_once:
  "(hasRecognition s \<longrightarrow>
      finalTranscript (handleCancelListening s) = []
      \<and> inputValue (handleCancelListening s) = []
      \<and> seen_texts (handleCancelListening s) = []
      \<and> \<not> shouldSendOnStop (handleCancelListening s)
      \<and> \<not> isListening (onend (handleCancelListening s))
      \<and> finalTranscript (onend (handleCancelListening s)) = []
      \<and> inputValue (onend (handleCancelListening s)) = []
      \<and> seen_texts (onend (handleCancelListening s)) = []
      \<and> autoSent (onend (handleCancelListening s)) = autoSent s)
   \<and> handleCancelListening (handleCancelListening s) = handleCancelListening s
   \<and> (\<not> hasRecognition s \<longrightarrow> handleCancelListening s = s)"
  by (cases "seenFinalTexts s")
     (simp_all add: handleCancelListening_def clear_seen_def seen_texts_def onend_def Let_def
        js_or_def trim_def)

lemma cancel_offered_while_listening:
  "offered CancelListening s \<Longrightarrow> isZoneContext s \<and> isListening s"
  by simp

text \<open>
  C8. The claim is that after \<open>cancel()\<close> from Listening the session reaches Idle with
  \<open>finalText\<close>, the displayed text and the dedup set empty. \<open>handleCancelListening\<close> empties
  them and calls \<open>recognition.stop()\<close>, which lets the stream deliver what it has heard
  before it ends; \<open>onresult\<close> has no guard against a result that comes after the
  cancellation, and the Set has just been emptied. On the page opened for \<open>ZONE_7\<close>: the
  session hears \<open>too cold\<close>, Cancel is clicked (the display is empty at once), the stream
  delivers the finals \<open>too cold\<close> and \<open>and\<close> and ends. The session is then at rest with
  \<open>too cold and\<close> in \<open>finalText\<close> and on display and two keys in the Set.
\<close>

theorem C8_result_after_cancel_is_kept:
  "receivable [VoiceInput chrome, OnStart, OnResult too_cold, CancelListening,
               OnResult too_cold_and_final, OnEnd] zone7
   \<and> isListening (run [VoiceInput chrome, OnStart, OnResult too_cold] zone7)
   \<and> inputValue (run [VoiceInput chrome, OnStart, OnResult too_cold, CancelListening] zone7)
       = []
   \<and> \<not> isListening (run [VoiceInput chrome, OnStart, OnResult too_cold, CancelListening,
                            OnResult too_cold_and_final, OnEnd] zone7)
   \<and> finalTranscript (run [VoiceInput chrome, OnStart, OnResult too_cold, CancelListening,
                            OnResult too_cold_and_final, OnEnd] zone7) = ''too cold and''
   \<and> inputValue (run [VoiceInput chrome, OnStart, OnResult too_cold, CancelListening,
                            OnResult too_cold_and_final, OnEnd] zone7) = ''too cold and''
   \<and> seen_texts (run [VoiceInput chrome, OnStart, OnResult too_cold, CancelListening,
                            OnResult too_cold_and_final, OnEnd] zone7) = [''too cold'', ''and'']"
  by (simp add: sample_defs eval_defs)

section \<open>Sending: the zone identifier and the history\<close>












lemma length_slice_last: "length (slice_last n xs) \<le> n"
  by (simp add: slice_last_def)

lemma length_historyWindow: "length (historyWindow ms) \<le> 10"
proof -
  have "length (historyWindow ms) \<le> length (slice_last 10 ms)"
    by (simp add: historyWindow_def)
  also have "\<dots> \<le> 10" by (rule length_slice_last)
  finally show ?thesis .
qed

lemma hasText_nonempty: "hasText m \<Longrightarrow> or_empty (mtext m) \<noteq> []"
  by (auto simp add: hasText_def or_empty_def trim_def split: option.splits)

lemma historyWindow_entry:
  assumes "e \<in> set (historyWindow ms)"
  shows "length (htext e) \<le> 500 \<and> htext e \<noteq> []
         \<and> (role e = ''user'' \<or> role e = ''assistant'')"
proof -
  from assms obtain m where m: "hasText m" and e: "e = toEntry m"
    by (auto simp add: historyWindow_def)
  from m have "or_empty (mtext m) \<noteq> []" by (rule hasText_nonempty)
  with e show ?thesis by (simp add: toEntry_def)
qed

lemma handleSendMessage_posted:
  assumes "posted (handleSendMessage overrideText s) = posted s @ [body]"
  shows "req_history body
         = historyWindow (messages s @ [\<lparr> mtype = ''user'', mtext = Some (req_message body) \<rparr>])"
  using assms
  by (simp add: handleSendMessage_def Let_def split: if_splits) auto

text \<open>
  C9, amended. The history of every request posted by \<open>handleSendMessage\<close> is taken from
  the conversation to which the message being sent has just been appended: it is made of
  those of its last 10 messages whose text is a string that is not blank, in order, so it
  has at most 10 entries, the message being sent among them as the latest; every entry's
  text is cut to at most 500 characters and is not empty, and every entry's role is
  \<open>user\<close> or \<open>assistant\<close>.
\<close>

theorem C9_history_window_bounded:
  assumes "posted (handleSendMessage overrideText s) = posted s @ [body]"
  shows "length (req_history body) \<le> 10
     \<and> (\<forall>e\<in>set (req_history body).
           length (htext e) \<le> 500 \<and> htext e \<noteq> []
           \<and> (role e = ''user'' \<or> role e = ''assistant''))
     \<and> req_history body
         = map toEntry (filter hasText
             (slice_last 10
                (messages s @ [\<lparr> mtype = ''user'', mtext = Some (req_message body) \<rparr>])))"
proof -
  have h: "req_history body
         = historyWindow (messages s @ [\<lparr> mtype = ''user'', mtext = Some (req_message body) \<rparr>])"
    using assms by (rule handleSendMessage_posted)
  show ?thesis
    unfolding h using length_historyWindow historyWindow_entry
    by (simp add: historyWindow_def [symmetric])
qed

text \<open>
  C9 on the page opened for \<open>ZONE_7\<close> with a conversation of 12 messages, among them a reply that is not a string, a blank
  one, an error entry and a reply of 600 characters: the history has 8 entries, the long
  reply cut to 500 characters.
\<close>

theorem C9_history_window_bounded_witness:
  "posted (handleSendMessage (Some ''hi'') (zone7\<lparr> messages := long_chat \<rparr>))
     = posted (zone7\<lparr> messages := long_chat \<rparr>) @ [hi_body]
   \<and> length long_chat = 12
   \<and> length (req_history hi_body) = 8
   \<and> length (req_history hi_body) \<le> 10
   \<and> req_history hi_body
       = map toEntry (filter hasText
           (slice_last 10 (long_chat @ [\<lparr> mtype = ''user'', mtext = Some ''hi'' \<rparr>])))"
proof -
  have h: "posted (handleSendMessage (Some ''hi'') (zone7\<lparr> messages := long_chat \<rparr>))
            = posted (zone7\<lparr> messages := long_chat \<rparr>) @ [hi_body]"
    by (simp add: sample_defs eval_defs)
  have c: "length (req_history hi_body) \<le> 10
           \<and> req_history hi_body
               = map toEntry (filter hasText
                   (slice_last 10
                      (messages (zone7\<lparr> messages := long_chat \<rparr>)
                       @ [\<lparr> mtype = ''user'', mtext = Some (req_message hi_body) \<rparr>])))"
    using C9_history_window_bounded [OF h] by blast
  have l: "length long_chat = 12 \<and> length (req_history hi_body) = 8
           \<and> req_message hi_body = ''hi''"
    by (simp add: long_chat_def hi_body_def)
  from h c l show ?thesis by simp
qed

text \<open>
  C9 as first stated makes the history a window of prior turns. For the first message of a
  conversation there is no prior turn, and the history posted with it has one entry, the
  message itself.
\<close>

theorem C9_history_holds_message_being_sent:
  "messages init_state = []
   \<and> map req_message (posted (handleSendMessage (Some ''hi'') init_state)) = [''hi'']
   \<and> map req_history (posted (handleSendMessage (Some ''hi'') init_state))
       = [[\<lparr> role = ''user'', htext = ''hi'' \<rparr>]]"
  by (simp add: eval_defs)

lemma first_message_on_zone_page:
  "receivable [InputChange ''hi'', SendMessage None] zone7
   \<and> messages zone7 = []
   \<and> map req_history (posted (run [InputChange ''hi'', SendMessage None] zone7))
       = [[\<lparr> role = ''user'', htext = ''hi'' \<rparr>]]"
  by (simp add: sample_defs eval_defs)

end
